theory Spec2Isabelle
  imports Complex_Main "HOL-Library.Log_Nat" "HOL-Library.AList"
begin

section \<open>Text\<close>

text \<open>
  A Python \<open>str\<close> is modelled as a \<open>string\<close>, one \<open>char\<close> per code point, so the model
  covers text whose code points are below 256. On that range the regular-expression class
  \<open>\d\<close> is the ten ASCII digits, and \<open>\s\<close> and \<open>str.strip()\<close> use the same set of
  whitespace characters: code points 9 to 13, 28 to 32, 133 and 160.
\<close>

definition is_digit :: "char \<Rightarrow> bool" where
  "is_digit c = (let n = (of_char c :: nat) in 48 \<le> n \<and> n \<le> 57)"

definition is_space :: "char \<Rightarrow> bool" where
  "is_space c = (let n = (of_char c :: nat) in
     (9 \<le> n \<and> n \<le> 13) \<or> (28 \<le> n \<and> n \<le> 32) \<or> n = 133 \<or> n = 160)"

definition digit_val :: "char \<Rightarrow> int" where
  "digit_val c = of_char c - 48"

text \<open>\<open>str.strip()\<close>: whitespace removed at both ends.\<close>

definition strip :: "string \<Rightarrow> string" where
  "strip s = rev (dropWhile is_space (rev (dropWhile is_space s)))"

text \<open>
  \<open>str.lower()\<close> on one character. Only the ASCII capitals have an ASCII lower-case
  form, and the program compares the result with ASCII letters only.
\<close>

definition lower_char :: "char \<Rightarrow> char" where
  "lower_char c =
     (case map_of (zip ''ABCDEFGHIJKLMNOPQRSTUVWXYZ'' ''abcdefghijklmnopqrstuvwxyz'') c of
        None \<Rightarrow> c
      | Some l \<Rightarrow> l)"

text \<open>The value of a string of decimal digits, most significant digit first.\<close>

definition dec_val :: "string \<Rightarrow> int" where
  "dec_val s = foldl (\<lambda>a c. 10 * a + digit_val c) 0 s"

section \<open>Errors\<close>

datatype error = ValueError | OverflowError | TypeError | AttributeError

section \<open>Floating point\<close>

text \<open>
  A Python \<open>float\<close> is an IEEE 754 binary64 number: \<open>Finite m e\<close> is the number
  \<open>m * 2 ^ e\<close>, beside the infinities and NaN. Every operation the program uses
  (\<open>float(str)\<close>, multiplication, \<open>round\<close>) is correctly rounded: its result is the
  exact result rounded to the nearest double, ties to the even significand. The exact
  results are fractions of integers, so the model computes on integers only.
\<close>

datatype pyfloat = Finite int int | PosInf | NegInf | NaN

text \<open>The fraction \<open>a / b\<close> (\<open>b\<close> positive) rounded to the nearest integer, halves to the
  even neighbour.\<close>

definition round_div :: "int \<Rightarrow> int \<Rightarrow> int" where
  "round_div a b =
     (let f = a div b; r = a mod b
      in if 2 * r < b then f
         else if b < 2 * r then f + 1
         else if even f then f else f + 1)"

text \<open>
  \<open>ilog2 n d\<close> is the exponent \<open>e\<close> with \<open>2 ^ e \<le> n / d < 2 ^ (e + 1)\<close>, for positive
  \<open>n\<close> and \<open>d\<close>: the difference of their bit lengths, or one less.
\<close>

definition ilog2 :: "int \<Rightarrow> int \<Rightarrow> int" where
  "ilog2 n d =
     (let e = bitlen n - bitlen d
      in if (if 0 \<le> e then d * 2 ^ nat e \<le> n else d \<le> n * 2 ^ nat (- e)) then e else e - 1)"

text \<open>
  The double nearest to the fraction \<open>n / d\<close> (\<open>d\<close> positive): a significand of 53 bits,
  an exponent not below that of the subnormal range, and an infinity when the rounded
  value reaches \<open>2 ^ 1024\<close>.
\<close>

definition nearest_double :: "int \<Rightarrow> int \<Rightarrow> pyfloat" where
  "nearest_double n d =
     (if n = 0 then Finite 0 0
      else let a = \<bar>n\<bar>;
               x = max (ilog2 a d) (- 1022) - 52;
               m = (if 0 \<le> x then round_div a (d * 2 ^ nat x)
                    else round_div (a * 2 ^ nat (- x)) d)
           in if 2 ^ 1024 \<le> m * 2 ^ nat x then (if 0 < n then PosInf else NegInf)
              else Finite (if 0 < n then m else - m) x)"

text \<open>
  \<open>float(s)\<close> for a string of digits and dots: at most one dot and at least one digit, or
  ValueError.
\<close>

definition float_of_str :: "string \<Rightarrow> error + pyfloat" where
  "float_of_str s =
     (let ip = takeWhile (\<lambda>c. c \<noteq> CHR ''.'') s;
          rest = dropWhile (\<lambda>c. c \<noteq> CHR ''.'') s;
          fp = (case rest of [] \<Rightarrow> [] | _ # t \<Rightarrow> t)
      in if \<not> list_all is_digit ip \<or> \<not> list_all is_digit fp \<or> ip @ fp = []
         then Inl ValueError
         else Inr (nearest_double (dec_val (ip @ fp)) (10 ^ length fp)))"

text \<open>\<open>x * k\<close> for a float \<open>x\<close> and an int \<open>k\<close> that is a double itself.\<close>

fun float_mul_int :: "pyfloat \<Rightarrow> int \<Rightarrow> pyfloat" where
  "float_mul_int (Finite m x) k =
     (if 0 \<le> x then nearest_double (m * k * 2 ^ nat x) 1
      else nearest_double (m * k) (2 ^ nat (- x)))"
| "float_mul_int PosInf k = (if 0 < k then PosInf else if k < 0 then NegInf else NaN)"
| "float_mul_int NegInf k = (if 0 < k then NegInf else if k < 0 then PosInf else NaN)"
| "float_mul_int NaN k = NaN"

text \<open>\<open>round(x)\<close> of a float: an int, OverflowError on an infinity, ValueError on a NaN.\<close>

fun py_round :: "pyfloat \<Rightarrow> error + int" where
  "py_round (Finite m x) =
     Inr (if 0 \<le> x then m * 2 ^ nat x else round_div m (2 ^ nat (- x)))"
| "py_round PosInf = Inl OverflowError"
| "py_round NegInf = Inl OverflowError"
| "py_round NaN = Inl ValueError"

section \<open>Follower counts\<close>

text \<open>
  The character class \<open>[\d,.]\<close> and the suffix class \<open>[KkMm]\<close> of the pattern
  \<open>([\d,.]+)\s*([KkMm])?\<close>.
\<close>

definition num_char :: "char \<Rightarrow> bool" where
  "num_char c = (is_digit c \<or> c = CHR '','' \<or> c = CHR ''.'')"

definition suffix_char :: "char \<Rightarrow> bool" where
  "suffix_char c = (c = CHR ''K'' \<or> c = CHR ''k'' \<or> c = CHR ''M'' \<or> c = CHR ''m'')"

text \<open>
  \<open>re.search\<close> of that pattern: the leftmost match starts at the first character of the
  class; group 1 is the longest run of class characters from there; after the longest run
  of whitespace, group 2 is the next character when it is a suffix letter. The result is
  \<open>None\<close> when no character of the class occurs.
\<close>

definition search_followers :: "string \<Rightarrow> (string \<times> char option) option" where
  "search_followers text =
     (let from = dropWhile (\<lambda>c. \<not> num_char c) text
      in if from = [] then None
         else Some (takeWhile num_char from,
                    (case dropWhile is_space (dropWhile num_char from) of
                       [] \<Rightarrow> None
                     | c # _ \<Rightarrow> if suffix_char c then Some c else None)))"

text \<open>
  \<open>parse_followers\<close>, on the values of its annotation \<open>Optional[str]\<close>, where
  \<open>str(text)\<close> is \<open>text\<close>. The \<open>int(digits)\<close> of the fallback branch cannot fail on
  ASCII digits.
\<close>

definition parse_followers :: "string option \<Rightarrow> error + int option" where
  "parse_followers text_opt =
     (case text_opt of
        None \<Rightarrow> Inr None
      | Some t \<Rightarrow>
          (let text = strip t
           in case search_followers text of
                None \<Rightarrow>
                  (let digits = filter is_digit text
                   in Inr (if digits \<noteq> [] then Some (dec_val digits) else None))
              | Some (num_str, suffix) \<Rightarrow>
                  (case float_of_str (filter (\<lambda>c. c \<noteq> CHR '','') num_str) of
                     Inl e \<Rightarrow> Inl e
                   | Inr num \<Rightarrow>
                       (let num' =
                              (case suffix of
                                 None \<Rightarrow> num
                               | Some sc \<Rightarrow>
                                   (let s = lower_char sc
                                    in if s = CHR ''k'' then float_mul_int num 1000
                                       else if s = CHR ''m'' then float_mul_int num 1000000
                                       else num))
                        in case py_round num' of
                             Inl e \<Rightarrow> Inl e
                           | Inr n \<Rightarrow> Inr (Some n)))))"

section \<open>User names\<close>

text \<open>
  The pattern \<open>x\.com\/([^\/\?\#]+)\<close>, matched ignoring case. \<open>match_here s\<close> is the
  match that starts at the first character of \<open>s\<close>: the six characters of the marker, then
  the longest run of characters other than \<open>/\<close>, \<open>?\<close> and \<open>#\<close>, which must not be empty.
\<close>

definition seg_char :: "char \<Rightarrow> bool" where
  "seg_char c = (c \<noteq> CHR ''/'' \<and> c \<noteq> CHR ''?'' \<and> c \<noteq> CHR ''#'')"

definition match_here :: "string \<Rightarrow> string option" where
  "match_here s =
     (if map lower_char (take 6 s) = ''x.com/'' \<and> takeWhile seg_char (drop 6 s) \<noteq> []
      then Some (takeWhile seg_char (drop 6 s)) else None)"

text \<open>\<open>re.search\<close>: the match at the leftmost position that has one.\<close>

fun search_username :: "string \<Rightarrow> string option" where
  "search_username [] = None"
| "search_username (c # cs) =
     (case match_here (c # cs) of
        Some seg \<Rightarrow> Some seg
      | None \<Rightarrow> search_username cs)"

definition extract_username_from_url :: "string \<Rightarrow> string" where
  "extract_username_from_url url =
     (if url = [] then []
      else case search_username url of Some seg \<Rightarrow> seg | None \<Rightarrow> [])"

section \<open>Values of the search provider\<close>

text \<open>
  What \<open>resp.json()\<close> returns: None, booleans, ints, floats, strings, lists, and dicts
  with string keys. A dict is an association list, read by its first entry for a key.
\<close>

datatype pyval =
    PNone
  | PBool bool
  | PInt int
  | PFloat pyfloat
  | PStr string
  | PList "pyval list"
  | PDict "(string \<times> pyval) list"

type_synonym pydict = "(string \<times> pyval) list"

text \<open>Truth value of a value, as \<open>or\<close> and \<open>not\<close> test it.\<close>

fun truthy :: "pyval \<Rightarrow> bool" where
  "truthy PNone = False"
| "truthy (PBool b) = b"
| "truthy (PInt n) = (n \<noteq> 0)"
| "truthy (PFloat (Finite m x)) = (m \<noteq> 0)"
| "truthy (PFloat f) = True"
| "truthy (PStr s) = (s \<noteq> [])"
| "truthy (PList vs) = (vs \<noteq> [])"
| "truthy (PDict d) = (d \<noteq> [])"

definition py_or :: "pyval \<Rightarrow> pyval \<Rightarrow> pyval" where
  "py_or a b = (if truthy a then a else b)"

text \<open>\<open>d.get(k)\<close> and \<open>d.get(k, default)\<close>.\<close>

definition dict_get :: "pydict \<Rightarrow> string \<Rightarrow> pyval" where
  "dict_get d k = (case map_of d k of None \<Rightarrow> PNone | Some v \<Rightarrow> v)"

definition dict_get_default :: "pydict \<Rightarrow> string \<Rightarrow> pyval \<Rightarrow> pyval" where
  "dict_get_default d k dflt = (case map_of d k of None \<Rightarrow> dflt | Some v \<Rightarrow> v)"

text \<open>Decimal digits of a natural number and \<open>str\<close> of an int.\<close>

definition digit_char :: "nat \<Rightarrow> char" where
  "digit_char d = ''0123456789'' ! d"

fun str_nat :: "nat \<Rightarrow> string" where
  "str_nat n =
     (if n < 10 then [digit_char n]
      else str_nat (n div 10) @ [digit_char (n mod 10)])"

declare str_nat.simps [simp del]

definition str_int :: "int \<Rightarrow> string" where
  "str_int i = (if i < 0 then CHR ''-'' # str_nat (nat (- i)) else str_nat (nat i))"

text \<open>
  \<open>str(v)\<close>. The text of a float, a list or a dict is the parameter \<open>repr\<close>: whatever
  Python prints for them, the results below hold.
\<close>

fun py_str :: "(pyval \<Rightarrow> string) \<Rightarrow> pyval \<Rightarrow> string" where
  "py_str repr (PStr s) = s"
| "py_str repr PNone = ''None''"
| "py_str repr (PBool b) = (if b then ''True'' else ''False'')"
| "py_str repr (PInt i) = str_int i"
| "py_str repr v = repr v"

text \<open>
  The two parsers called on any value, as \<open>parse_apify_items\<close> does. \<open>parse_followers\<close>
  returns None on None and parses \<open>str(text)\<close> otherwise. \<open>extract_username_from_url\<close>
  returns the empty string on a false value, searches a string, and \<open>re.search\<close> raises
  TypeError on any other value.
\<close>

definition parse_followers_val :: "(pyval \<Rightarrow> string) \<Rightarrow> pyval \<Rightarrow> error + int option" where
  "parse_followers_val repr v =
     (case v of PNone \<Rightarrow> parse_followers None | _ \<Rightarrow> parse_followers (Some (py_str repr v)))"

definition extract_username_from_url_val :: "pyval \<Rightarrow> error + string" where
  "extract_username_from_url_val v =
     (if \<not> truthy v then Inr []
      else case v of PStr url \<Rightarrow> Inr (extract_username_from_url url) | _ \<Rightarrow> Inl TypeError)"

section \<open>Lead extraction\<close>

text \<open>\<open>"k" in d and isinstance(d["k"], list)\<close>, giving the list.\<close>

definition list_under :: "pydict \<Rightarrow> string \<Rightarrow> pyval list option" where
  "list_under d k = (case map_of d k of Some (PList vs) \<Rightarrow> Some vs | _ \<Rightarrow> None)"

text \<open>The first lines of the outer loop body: the payload of a container and its entries.\<close>

definition json_obj_of :: "pyval \<Rightarrow> pyval" where
  "json_obj_of item =
     (case item of
        PDict d \<Rightarrow> (case map_of d ''json'' of Some v \<Rightarrow> v | None \<Rightarrow> item)
      | _ \<Rightarrow> item)"

definition organic_of :: "pyval \<Rightarrow> pyval list" where
  "organic_of item =
     (case json_obj_of item of
        PDict d \<Rightarrow>
          (case list_under d ''organicResults'' of
             Some vs \<Rightarrow> vs
           | None \<Rightarrow> (case list_under d ''results'' of Some vs \<Rightarrow> vs | None \<Rightarrow> []))
      | _ \<Rightarrow> [])"

text \<open>
  The body of the inner loop: the lead of one entry. \<open>r.get\<close> raises AttributeError when
  the entry is not a dict.
\<close>

definition lead_of_entry :: "(pyval \<Rightarrow> string) \<Rightarrow> pyval \<Rightarrow> error + pydict" where
  "lead_of_entry repr r =
     (case r of
        PDict d \<Rightarrow>
          (let name = py_or (dict_get d ''title'') (PStr '''');
               url = py_or (py_or (dict_get d ''url'') (dict_get d ''link'')) (PStr '''')
           in case extract_username_from_url_val url of
                Inl e \<Rightarrow> Inl e
              | Inr username \<Rightarrow>
                  (let description =
                         py_or (py_or (dict_get d ''description'') (dict_get d ''snippet''))
                           (PStr '''');
                       followers_raw =
                         py_or (py_or (dict_get d ''followersAmount'') (dict_get d ''followers''))
                           (PStr '''')
                   in case parse_followers_val repr followers_raw of
                        Inl e \<Rightarrow> Inl e
                      | Inr followers \<Rightarrow>
                          Inr [(''Name'', name),
                               (''Username'', PStr username),
                               (''Handle'', url),
                               (''Description'', description),
                               (''Followers'',
                                  (case followers of None \<Rightarrow> PNone | Some n \<Rightarrow> PInt n))]))
      | _ \<Rightarrow> Inl AttributeError)"

text \<open>The inner loop appends to \<open>leads\<close>; an exception leaves the function.\<close>

fun organic_loop :: "(pyval \<Rightarrow> string) \<Rightarrow> pydict list \<Rightarrow> pyval list \<Rightarrow> error + pydict list" where
  "organic_loop repr leads [] = Inr leads"
| "organic_loop repr leads (r # rs) =
     (case lead_of_entry repr r of
        Inl e \<Rightarrow> Inl e
      | Inr lead \<Rightarrow> organic_loop repr (leads @ [lead]) rs)"

fun items_loop :: "(pyval \<Rightarrow> string) \<Rightarrow> pydict list \<Rightarrow> pyval list \<Rightarrow> error + pydict list" where
  "items_loop repr leads [] = Inr leads"
| "items_loop repr leads (item # items) =
     (let organic = organic_of item
      in if organic = [] then items_loop repr leads items
         else case organic_loop repr leads organic of
                Inl e \<Rightarrow> Inl e
              | Inr leads' \<Rightarrow> items_loop repr leads' items)"

definition parse_apify_items :: "(pyval \<Rightarrow> string) \<Rightarrow> pyval list \<Rightarrow> error + pydict list" where
  "parse_apify_items repr items = items_loop repr [] items"

section \<open>The worksheet\<close>

text \<open>
  The spreadsheet collaborator: a worksheet keeps its rows of cell values, and the list of
  calls made on it. A spreadsheet is the list of its tabs. \<open>row_values\<close> reads a row (the
  empty list when the row has no values), \<open>update\<close> of the range \<open>A1:G1\<close> writes the
  leading cells of the first row and leaves the cells after them, \<open>append_rows\<close> adds rows
  below the last one.
\<close>

datatype ws_call =
    Row_values nat
  | Update string "pyval list list"
  | Append_rows "pyval list list" string

record worksheet =
  title :: string
  row_count :: nat
  col_count :: nat
  cells :: "pyval list list"
  calls :: "ws_call list"

type_synonym spreadsheet = "worksheet list"

definition first_row :: "worksheet \<Rightarrow> pyval list" where
  "first_row ws = (case cells ws of [] \<Rightarrow> [] | r # _ \<Rightarrow> r)"

definition row_values :: "worksheet \<Rightarrow> pyval list \<times> worksheet" where
  "row_values ws = (first_row ws, ws\<lparr>calls := calls ws @ [Row_values 1]\<rparr>)"

definition update_first_row :: "pyval list \<Rightarrow> worksheet \<Rightarrow> worksheet" where
  "update_first_row vals ws =
     ws\<lparr>cells := (vals @ drop (length vals) (first_row ws)) # drop 1 (cells ws),
        calls := calls ws @ [Update ''A1:G1'' [vals]]\<rparr>"

definition append_rows :: "pyval list list \<Rightarrow> worksheet \<Rightarrow> worksheet" where
  "append_rows rows ws =
     ws\<lparr>cells := cells ws @ rows,
        calls := calls ws @ [Append_rows rows ''USER_ENTERED'']\<rparr>"

text \<open>\<open>sheet.worksheet(name)\<close>: the first tab of that title, or WorksheetNotFound (None).\<close>

definition worksheet_named :: "spreadsheet \<Rightarrow> string \<Rightarrow> worksheet option" where
  "worksheet_named sheet name = find (\<lambda>w. title w = name) sheet"

definition add_worksheet :: "string \<Rightarrow> nat \<Rightarrow> nat \<Rightarrow> worksheet" where
  "add_worksheet name nrows ncols =
     \<lparr>title = name, row_count = nrows, col_count = ncols, cells = [], calls = []\<rparr>"

text \<open>The worksheet object is a handle: what is done to it is done to the tab of the sheet.\<close>

fun store_worksheet :: "worksheet \<Rightarrow> spreadsheet \<Rightarrow> spreadsheet" where
  "store_worksheet ws [] = [ws]"
| "store_worksheet ws (w # rest) =
     (if title w = title ws then ws # rest else w # store_worksheet ws rest)"

definition headers :: "pyval list" where
  "headers = map PStr [''Timestamp'', ''Topic'', ''Name'', ''Username'', ''Handle'',
                       ''Description'', ''Followers'']"

text \<open>
  \<open>ensure_sheet_tab\<close> returns the worksheet; the model returns the spreadsheet as it is
  afterwards as well. A new tab has 1000 rows and 20 columns (the source passes the two
  numbers as strings).
\<close>

definition ensure_sheet_tab :: "spreadsheet \<Rightarrow> string \<Rightarrow> spreadsheet \<times> worksheet" where
  "ensure_sheet_tab sheet tab_name =
     (let ws = (case worksheet_named sheet tab_name of
                  Some w \<Rightarrow> w
                | None \<Rightarrow> add_worksheet tab_name 1000 20);
          (existing, ws1) = row_values ws;
          ws2 = (if existing = [] \<or> take (length headers) existing \<noteq> headers
                 then update_first_row headers ws1 else ws1)
      in (store_worksheet ws2 sheet, ws2))"

section \<open>Appending leads\<close>

text \<open>
  The clock reading of \<open>datetime.utcnow()\<close> is a parameter of the model. A datetime has a
  year from 1 to 9999 and the usual ranges of the other fields.
\<close>

record datetime =
  year :: nat
  month :: nat
  day :: nat
  hour :: nat
  minute :: nat
  second :: nat
  microsecond :: nat

definition valid_datetime :: "datetime \<Rightarrow> bool" where
  "valid_datetime dt =
     (1 \<le> year dt \<and> year dt \<le> 9999 \<and> 1 \<le> month dt \<and> month dt \<le> 12
      \<and> 1 \<le> day dt \<and> day dt \<le> 31 \<and> hour dt < 24 \<and> minute dt < 60 \<and> second dt < 60
      \<and> microsecond dt < 1000000)"

text \<open>\<open>%04d\<close> and \<open>%02d\<close>: decimal digits, padded with zeros on the left.\<close>

definition zero_pad :: "nat \<Rightarrow> nat \<Rightarrow> string" where
  "zero_pad w n = replicate (w - length (str_nat n)) CHR ''0'' @ str_nat n"

text \<open>\<open>isoformat(sep=" ", timespec="seconds")\<close> of a datetime without time zone.\<close>

definition isoformat_seconds :: "datetime \<Rightarrow> string" where
  "isoformat_seconds dt =
     zero_pad 4 (year dt) @ ''-'' @ zero_pad 2 (month dt) @ ''-'' @ zero_pad 2 (day dt)
     @ '' '' @ zero_pad 2 (hour dt) @ '':'' @ zero_pad 2 (minute dt) @ '':''
     @ zero_pad 2 (second dt)"

text \<open>The row of one lead, and the loop that collects the rows.\<close>

definition lead_row :: "(pyval \<Rightarrow> string) \<Rightarrow> string \<Rightarrow> string \<Rightarrow> pydict \<Rightarrow> pyval list" where
  "lead_row repr now topic lead =
     [PStr now,
      PStr topic,
      dict_get_default lead ''Name'' (PStr ''''),
      dict_get_default lead ''Username'' (PStr ''''),
      dict_get_default lead ''Handle'' (PStr ''''),
      dict_get_default lead ''Description'' (PStr ''''),
      PStr (py_str repr (py_or (dict_get_default lead ''Followers'' (PStr '''')) (PStr '''')))]"

fun rows_loop ::
  "(pyval \<Rightarrow> string) \<Rightarrow> string \<Rightarrow> string \<Rightarrow> pyval list list \<Rightarrow> pydict list \<Rightarrow> pyval list list"
where
  "rows_loop repr now topic rows [] = rows"
| "rows_loop repr now topic rows (lead # leads) =
     rows_loop repr now topic (rows @ [lead_row repr now topic lead]) leads"

definition append_leads_to_sheet ::
  "(pyval \<Rightarrow> string) \<Rightarrow> datetime \<Rightarrow> worksheet \<Rightarrow> string \<Rightarrow> pydict list \<Rightarrow> nat \<times> worksheet"
where
  "append_leads_to_sheet repr utcnow ws topic leads =
     (if leads = [] then (0, ws)
      else let now = isoformat_seconds utcnow @ '' UTC'';
               rows = rows_loop repr now topic [] leads
           in (length rows, append_rows rows ws))"

text \<open>
  The shape \<open>YYYY-MM-DD HH:MM:SS UTC\<close>: a digit where the pattern has \<open>d\<close>, the
  character of the pattern elsewhere.
\<close>

definition shape_char :: "char \<Rightarrow> char \<Rightarrow> bool" where
  "shape_char p c = (if p = CHR ''d'' then is_digit c else c = p)"

definition timestamp_shape :: "string \<Rightarrow> bool" where
  "timestamp_shape s = list_all2 shape_char ''dddd-dd-dd dd:dd:dd UTC'' s"

section \<open>Notions used in the statements\<close>

text \<open>
  Positions of a URL: the marker \<open>x.com/\<close> (in any letter case) starts at position \<open>i\<close>;
  the segment after a marker at \<open>i\<close> is the longest run of characters other than \<open>/\<close>,
  \<open>?\<close> and \<open>#\<close> that follows it; the pattern matches at \<open>i\<close> when the marker is there
  and the segment is not empty.
\<close>

definition marker_at :: "string \<Rightarrow> nat \<Rightarrow> bool" where
  "marker_at url i = (map lower_char (take 6 (drop i url)) = ''x.com/'')"

definition segment_at :: "string \<Rightarrow> nat \<Rightarrow> string" where
  "segment_at url i = takeWhile seg_char (drop (i + 6) url)"

definition matches_at :: "string \<Rightarrow> nat \<Rightarrow> bool" where
  "matches_at url i = (marker_at url i \<and> segment_at url i \<noteq> [])"

text \<open>A float that is not negative: a finite one with a significand from 0, or plus infinity.\<close>

fun nonneg_float :: "pyfloat \<Rightarrow> bool" where
  "nonneg_float (Finite m x) = (0 \<le> m)"
| "nonneg_float PosInf = True"
| "nonneg_float NegInf = False"
| "nonneg_float NaN = False"

text \<open>
  The entries of a container, in the words of the specification. The payload of a container
  is what stands under its key \<open>json\<close> when the container is a dict with that key, and the
  container itself otherwise. The entries are the list under \<open>organicResults\<close> of the
  payload, or else the list under \<open>results\<close>; there are none when the payload is no dict
  or has a list under neither key.
\<close>

fun payload_of :: "pyval \<Rightarrow> pyval" where
  "payload_of (PDict d) = (case map_of d ''json'' of Some p \<Rightarrow> p | None \<Rightarrow> PDict d)"
| "payload_of v = v"

fun list_at :: "pyval \<Rightarrow> string \<Rightarrow> pyval list option" where
  "list_at (PDict d) k = (case map_of d k of Some (PList vs) \<Rightarrow> Some vs | _ \<Rightarrow> None)"
| "list_at v k = None"

definition has_results_list :: "pyval \<Rightarrow> bool" where
  "has_results_list item =
     (list_at (payload_of item) ''organicResults'' \<noteq> None
      \<or> list_at (payload_of item) ''results'' \<noteq> None)"

definition container_entries :: "pyval \<Rightarrow> pyval list" where
  "container_entries item =
     (case list_at (payload_of item) ''organicResults'' of
        Some vs \<Rightarrow> vs
      | None \<Rightarrow> (case list_at (payload_of item) ''results'' of Some vs \<Rightarrow> vs | None \<Rightarrow> []))"

text \<open>
  The leads of a list of entries, one for each entry and in the order of the entries, or the
  error of the first entry that has one.
\<close>

fun collect_leads :: "(pyval \<Rightarrow> string) \<Rightarrow> pyval list \<Rightarrow> error + pydict list" where
  "collect_leads repr [] = Inr []"
| "collect_leads repr (r # rs) =
     (case lead_of_entry repr r of
        Inl e \<Rightarrow> Inl e
      | Inr lead \<Rightarrow>
          (case collect_leads repr rs of
             Inl e \<Rightarrow> Inl e
           | Inr leads \<Rightarrow> Inr (lead # leads)))"

text \<open>
  Reading a timestamp back: the number written in decimal by the \<open>n\<close> characters of \<open>s\<close>
  from position \<open>i\<close>. In \<open>YYYY-MM-DD HH:MM:SS UTC\<close> the year is at 0, the month at 5, the
  day at 8, the hour at 11, the minute at 14 and the second at 17.
\<close>

definition read_digits :: "string \<Rightarrow> nat" where
  "read_digits s = foldl (\<lambda>a c. 10 * a + (of_char c - 48)) 0 s"

definition stamp_field :: "string \<Rightarrow> nat \<Rightarrow> nat \<Rightarrow> nat" where
  "stamp_field s i n = read_digits (take n (drop i s))"

section \<open>Properties of the follower-count parser\<close>

lemmas text_defs = strip_def is_space_def is_digit_def num_char_def suffix_char_def
  search_followers_def dec_val_def digit_val_def lower_char_def

subsection \<open>The doubles of the examples\<close>

lemma nearest_double_12_3: "nearest_double 123 10 = Finite 6924284427082138 (- 49)"
proof -
  have "bitlen 123 = 7" "bitlen 10 = 4" by (simp_all add: compute_bitlen)
  then have "ilog2 123 10 = 3" by (simp add: ilog2_def)
  then show ?thesis by (simp add: nearest_double_def round_div_def Let_def)
qed

lemma nearest_double_12_3_K:
  "nearest_double 6924284427082138000 562949953421312 = Finite 6761996510822400 (- 39)"
proof -
  have "bitlen 6924284427082138000 = 63" "bitlen 562949953421312 = 50"
    by (simp_all add: compute_bitlen)
  then have "ilog2 6924284427082138000 562949953421312 = 13" by (simp add: ilog2_def)
  then show ?thesis by (simp add: nearest_double_def round_div_def Let_def)
qed

lemma nearest_double_1_2: "nearest_double 12 10 = Finite 5404319552844595 (- 52)"
proof -
  have "bitlen 12 = 4" "bitlen 10 = 4" by (simp_all add: compute_bitlen)
  then have "ilog2 12 10 = 0" by (simp add: ilog2_def)
  then show ?thesis by (simp add: nearest_double_def round_div_def Let_def)
qed

lemma nearest_double_1_2_M:
  "nearest_double 5404319552844595000000 4503599627370496 = Finite 5153960755200000 (- 32)"
proof -
  have "bitlen 5404319552844595000000 = 73" "bitlen 4503599627370496 = 53"
    by (simp_all add: compute_bitlen)
  then have "ilog2 5404319552844595000000 4503599627370496 = 20" by (simp add: ilog2_def)
  then show ?thesis by (simp add: nearest_double_def round_div_def Let_def)
qed

lemma nearest_double_1234: "nearest_double 1234 1 = Finite 5427189394702336 (- 42)"
proof -
  have "bitlen 1234 = 11" "bitlen 1 = 1" by (simp_all add: compute_bitlen)
  then have "ilog2 1234 1 = 10" by (simp add: ilog2_def)
  then show ?thesis by (simp add: nearest_double_def round_div_def Let_def)
qed

lemma parse_followers_12_3K: "parse_followers (Some ''12.3K'') = Inr (Some 12300)"
  by (simp add: parse_followers_def text_defs float_of_str_def nearest_double_12_3
      nearest_double_12_3_K round_div_def Let_def)

lemma parse_followers_1_2M: "parse_followers (Some ''1.2M'') = Inr (Some 1200000)"
  by (simp add: parse_followers_def text_defs float_of_str_def nearest_double_1_2
      nearest_double_1_2_M round_div_def Let_def)

lemma parse_followers_1234: "parse_followers (Some ''1234'') = Inr (Some 1234)"
  by (simp add: parse_followers_def text_defs float_of_str_def nearest_double_1234
      round_div_def Let_def)

lemma parse_followers_0: "parse_followers (Some ''0'') = Inr (Some 0)"
  by (simp add: parse_followers_def text_defs float_of_str_def nearest_double_def)

text \<open>
  C3. \<open>parse_followers\<close> returns 12300 on \<open>12.3K\<close>, 1200000 on \<open>1.2M\<close>, 1234 on
  \<open>1234\<close>, and None on the empty string, on None and on \<open>abc\<close>.
\<close>

theorem parse_followers_examples:
  "parse_followers (Some ''12.3K'') = Inr (Some 12300)
   \<and> parse_followers (Some ''1.2M'') = Inr (Some 1200000)
   \<and> parse_followers (Some ''1234'') = Inr (Some 1234)
   \<and> parse_followers (Some '''') = Inr None
   \<and> parse_followers None = Inr None
   \<and> parse_followers (Some ''abc'') = Inr None"
proof (intro conjI)
  show "parse_followers (Some ''12.3K'') = Inr (Some 12300)" by (rule parse_followers_12_3K)
  show "parse_followers (Some ''1.2M'') = Inr (Some 1200000)" by (rule parse_followers_1_2M)
  show "parse_followers (Some ''1234'') = Inr (Some 1234)" by (rule parse_followers_1234)
  show "parse_followers (Some '''') = Inr None" by (simp add: parse_followers_def text_defs)
  show "parse_followers None = Inr None" by (simp add: parse_followers_def)
  show "parse_followers (Some ''abc'') = Inr None" by (simp add: parse_followers_def text_defs)
qed

subsection \<open>Inputs that raise\<close>

lemma foldl_zeros:
  "foldl (\<lambda>a c. 10 * a + digit_val c) a (replicate n CHR ''0'') = a * 10 ^ n"
  by (induction n arbitrary: a) (simp_all add: digit_val_def)

lemma dec_val_one_zeros: "dec_val (CHR ''1'' # replicate n CHR ''0'') = 10 ^ n"
proof -
  have "digit_val CHR ''1'' = 1" by (simp add: digit_val_def)
  then show ?thesis by (simp add: dec_val_def foldl_zeros)
qed

lemma bitlen_10_309: "bitlen (10 ^ 309) = 1027"
  by (simp add: compute_bitlen)

lemma nearest_double_10_309: "nearest_double (10 ^ 309) 1 = PosInf"
proof -
  have "ilog2 (10 ^ 309) 1 = 1026"
    unfolding ilog2_def bitlen_10_309 by (simp add: compute_bitlen)
  then show ?thesis by (simp add: nearest_double_def round_div_def Let_def)
qed

lemma parse_followers_overflow:
  "parse_followers (Some (CHR ''1'' # replicate 309 CHR ''0'')) = Inl OverflowError"
proof -
  let ?s = "CHR ''1'' # replicate 309 CHR ''0''"
  have d: "is_digit CHR ''0''" "is_digit CHR ''1''" "\<not> is_space CHR ''0''" "\<not> is_space CHR ''1''"
    by (simp_all add: is_digit_def is_space_def)
  have st: "strip ?s = ?s"
    by (simp add: strip_def d dropWhile_append3 [where xs = "replicate 309 CHR ''0''"])
  have se: "search_followers ?s = Some (?s, None)"
    by (simp add: search_followers_def num_char_def d takeWhile_replicate dropWhile_replicate)
  have "float_of_str ?s = Inr (nearest_double (dec_val ?s) 1)"
    by (simp add: float_of_str_def takeWhile_replicate dropWhile_replicate d list_all_iff)
  then have fl: "float_of_str ?s = Inr PosInf"
    by (simp only: dec_val_one_zeros nearest_double_10_309)
  have fi: "filter (\<lambda>c. c \<noteq> CHR '','') ?s = ?s" by simp
  show ?thesis
    unfolding parse_followers_def by (simp add: st se fi fl del: replicate.simps)
qed

text \<open>
  C1. The parser does raise. When the characters matched by \<open>[\d,.]+\<close> are no decimal
  number, \<open>float\<close> raises ValueError, and nothing in \<open>parse_followers\<close> catches it (the
  \<open>try\<close> covers the fallback branch only): a string of one comma, of one dot, and
  \<open>1.2.3\<close> all end in ValueError instead of None. And a number too large for a float
  becomes an infinity, on which \<open>round\<close> raises OverflowError: so it is for a 1 followed
  by 309 zeros.
\<close>

theorem parse_followers_raises:
  "parse_followers (Some '','') = Inl ValueError
   \<and> parse_followers (Some ''.'') = Inl ValueError
   \<and> parse_followers (Some ''1.2.3'') = Inl ValueError
   \<and> parse_followers (Some (CHR ''1'' # replicate 309 CHR ''0'')) = Inl OverflowError"
proof (intro conjI)
  show "parse_followers (Some '','') = Inl ValueError"
    by (simp add: parse_followers_def text_defs float_of_str_def)
  show "parse_followers (Some ''.'') = Inl ValueError"
    by (simp add: parse_followers_def text_defs float_of_str_def)
  show "parse_followers (Some ''1.2.3'') = Inl ValueError"
    by (simp add: parse_followers_def text_defs float_of_str_def)
  show "parse_followers (Some (CHR ''1'' # replicate 309 CHR ''0'')) = Inl OverflowError"
    by (rule parse_followers_overflow)
qed

subsection \<open>No negative count\<close>

lemma round_div_nonneg: "0 \<le> a \<Longrightarrow> 0 < b \<Longrightarrow> 0 \<le> round_div a b"
  by (simp add: round_div_def Let_def pos_imp_zdiv_nonneg_iff)

lemma nearest_double_nonneg: "0 \<le> n \<Longrightarrow> 0 < d \<Longrightarrow> nonneg_float (nearest_double n d)"
  by (simp add: nearest_double_def Let_def round_div_nonneg)

lemma digit_val_nonneg: "is_digit c \<Longrightarrow> 0 \<le> digit_val c"
proof -
  assume "is_digit c"
  then have "48 \<le> (of_char c :: nat)" by (simp add: is_digit_def Let_def)
  moreover have "(of_char c :: int) = int (of_char c)" by (simp only: of_nat_of_char)
  ultimately have "48 \<le> (of_char c :: int)" by linarith
  then show ?thesis by (simp add: digit_val_def)
qed

lemma foldl_digits_nonneg:
  "0 \<le> a \<Longrightarrow> list_all is_digit s \<Longrightarrow> 0 \<le> foldl (\<lambda>a c. 10 * a + digit_val c) a s"
proof (induction s arbitrary: a)
  case Nil
  then show ?case by simp
next
  case (Cons c cs)
  then have "0 \<le> 10 * a + digit_val c" using digit_val_nonneg [of c] by simp
  with Cons show ?case by simp
qed

lemma dec_val_nonneg: "list_all is_digit s \<Longrightarrow> 0 \<le> dec_val s"
  by (simp add: dec_val_def foldl_digits_nonneg)

lemma float_of_str_nonneg: "float_of_str s = Inr f \<Longrightarrow> nonneg_float f"
  by (auto simp: float_of_str_def Let_def dec_val_nonneg nearest_double_nonneg
      split: if_splits)

lemma float_mul_int_nonneg: "nonneg_float f \<Longrightarrow> 0 < k \<Longrightarrow> nonneg_float (float_mul_int f k)"
  by (cases f) (simp_all add: nearest_double_nonneg)

lemma py_round_nonneg: "nonneg_float f \<Longrightarrow> py_round f = Inr n \<Longrightarrow> 0 \<le> n"
  by (cases f) (auto simp: round_div_nonneg)

text \<open>
  C9. Whenever \<open>parse_followers\<close> returns, the result is None or an integer that is not
  negative.
\<close>

theorem parse_followers_nonneg: "parse_followers inp = Inr (Some n) \<Longrightarrow> 0 \<le> n"
proof (cases inp)
  case None
  assume "parse_followers inp = Inr (Some n)"
  with None show ?thesis by (simp add: parse_followers_def)
next
  case (Some t)
  assume r: "parse_followers inp = Inr (Some n)"
  show ?thesis
  proof (cases "search_followers (strip t)")
    case None
    with r Some have "n = dec_val (filter is_digit (strip t))"
      by (simp add: parse_followers_def Let_def split: if_splits)
    moreover have "list_all is_digit (filter is_digit (strip t))" by (simp add: list_all_iff)
    ultimately show ?thesis by (simp add: dec_val_nonneg)
  next
    case (Some a)
    then obtain num_str suffix where a: "search_followers (strip t) = Some (num_str, suffix)"
      by (cases a) auto
    from r \<open>inp = Some t\<close> a obtain num where
      f: "float_of_str (filter (\<lambda>c. c \<noteq> CHR '','') num_str) = Inr num"
      by (auto simp: parse_followers_def Let_def split: sum.splits)
    define num' where "num' = (case suffix of None \<Rightarrow> num
       | Some sc \<Rightarrow> (let s = lower_char sc in if s = CHR ''k'' then float_mul_int num 1000
            else if s = CHR ''m'' then float_mul_int num 1000000 else num))"
    have nn: "nonneg_float num" using f by (rule float_of_str_nonneg)
    have nn': "nonneg_float num'"
      unfolding num'_def using nn
      by (auto simp: Let_def float_mul_int_nonneg split: option.splits)
    have "py_round num' = Inr n"
      using r \<open>inp = Some t\<close> a f unfolding num'_def
      by (auto simp: parse_followers_def Let_def split: sum.splits)
    with nn' show ?thesis by (rule py_round_nonneg)
  qed
qed

theorem parse_followers_nonneg_witness:
  "parse_followers (Some ''12.3K'') = Inr (Some 12300) \<and> (0::int) \<le> 12300"
  using parse_followers_nonneg [OF parse_followers_12_3K] parse_followers_12_3K by simp

section \<open>Properties of the user-name extractor\<close>

lemma match_here_drop:
  "match_here (drop i url) = (if matches_at url i then Some (segment_at url i) else None)"
  by (simp add: match_here_def matches_at_def marker_at_def segment_at_def add.commute)

lemma match_here_nonempty: "match_here s = Some seg \<Longrightarrow> seg \<noteq> []"
  by (auto simp: match_here_def split: if_splits)

lemma search_username_none:
  "(\<And>i. match_here (drop i s) = None) \<Longrightarrow> search_username s = None"
proof (induction s)
  case Nil
  show ?case by simp
next
  case (Cons c cs)
  have here: "match_here (c # cs) = None" using Cons.prems [of 0] by simp
  have "\<And>i. match_here (drop i cs) = None" using Cons.prems [of "Suc _"] by simp
  then have "search_username cs = None" by (rule Cons.IH)
  with here show ?case by simp
qed

lemma search_username_leftmost:
  "match_here (drop i s) = Some seg \<Longrightarrow> (\<And>j. j < i \<Longrightarrow> match_here (drop j s) = None)
   \<Longrightarrow> search_username s = Some seg"
proof (induction s arbitrary: i)
  case Nil
  then show ?case by (simp add: match_here_def)
next
  case (Cons c cs)
  show ?case
  proof (cases i)
    case 0
    with Cons.prems(1) show ?thesis by simp
  next
    case (Suc k)
    have here: "match_here (c # cs) = None" using Cons.prems(2) [of 0] Suc by simp
    have m: "match_here (drop k cs) = Some seg" using Cons.prems(1) Suc by simp
    have "\<And>j. j < k \<Longrightarrow> match_here (drop j cs) = None"
      using Cons.prems(2) [of "Suc _"] Suc by simp
    with m have "search_username cs = Some seg" by (rule Cons.IH)
    with here show ?thesis by simp
  qed
qed

lemma search_username_nonempty: "search_username s = Some seg \<Longrightarrow> seg \<noteq> []"
  by (induction s) (auto split: option.splits dest: match_here_nonempty)

lemma search_username_some:
  "match_here (drop i s) = Some seg \<Longrightarrow> \<exists>seg'. search_username s = Some seg'"
proof (induction s arbitrary: i)
  case Nil
  then show ?case by (simp add: match_here_def)
next
  case (Cons c cs)
  show ?case
  proof (cases "match_here (c # cs)")
    case (Some a)
    then show ?thesis by simp
  next
    case None
    then obtain k where "i = Suc k" using Cons.prems by (cases i) auto
    then have "match_here (drop k cs) = Some seg" using Cons.prems by simp
    then have "\<exists>seg'. search_username cs = Some seg'" by (rule Cons.IH)
    with None show ?thesis by simp
  qed
qed

lemma matches_at_bound: "matches_at url i \<Longrightarrow> i + 6 < length url"
proof -
  assume m: "matches_at url i"
  then have "drop (i + 6) url \<noteq> []" by (auto simp: matches_at_def segment_at_def)
  then show ?thesis by simp
qed

text \<open>
  C8. The extractor returns \<open>someuser\<close> for \<open>https://x.com/someuser\<close>; it returns the empty
  string for the empty string, for \<open>not a url\<close> and for every URL in which the pattern
  matches nowhere; and when the pattern matches, it returns the segment after the leftmost
  matching marker, as it stands in the URL. The function is total on strings: it has no
  error result.
\<close>

theorem extract_username_from_url_spec:
  "extract_username_from_url ''https://x.com/someuser'' = ''someuser''
   \<and> extract_username_from_url '''' = ''''
   \<and> extract_username_from_url ''not a url'' = ''''
   \<and> ((\<forall>i. \<not> matches_at url i) \<longrightarrow> extract_username_from_url url = '''')
   \<and> (matches_at url i \<and> (\<forall>j<i. \<not> matches_at url j)
        \<longrightarrow> extract_username_from_url url = segment_at url i)"
proof (intro conjI impI)
  show "extract_username_from_url ''https://x.com/someuser'' = ''someuser''"
    by (simp add: extract_username_from_url_def match_here_def lower_char_def seg_char_def)
  show "extract_username_from_url '''' = ''''"
    by (simp add: extract_username_from_url_def)
  show "extract_username_from_url ''not a url'' = ''''"
    by (simp add: extract_username_from_url_def match_here_def lower_char_def seg_char_def)
next
  assume "\<forall>i. \<not> matches_at url i"
  then have "\<And>i. match_here (drop i url) = None" by (simp add: match_here_drop)
  then have "search_username url = None" by (rule search_username_none)
  then show "extract_username_from_url url = ''''"
    by (simp add: extract_username_from_url_def)
next
  assume a: "matches_at url i \<and> (\<forall>j<i. \<not> matches_at url j)"
  then have m: "match_here (drop i url) = Some (segment_at url i)"
    by (simp add: match_here_drop)
  have "\<And>j. j < i \<Longrightarrow> match_here (drop j url) = None"
    using a by (simp add: match_here_drop)
  with m have s: "search_username url = Some (segment_at url i)"
    by (rule search_username_leftmost)
  have "url \<noteq> []" using a matches_at_bound [of url i] by auto
  with s show "extract_username_from_url url = segment_at url i"
    by (simp add: extract_username_from_url_def)
qed

theorem extract_username_from_url_spec_witness:
  "(\<forall>i. \<not> matches_at ''https://x.com/'' i)
   \<and> extract_username_from_url ''https://x.com/'' = ''''
   \<and> matches_at ''https://x.com/someuser?lang=en'' 8
   \<and> list_all (\<lambda>j. \<not> matches_at ''https://x.com/someuser?lang=en'' j) [0..<8]
   \<and> extract_username_from_url ''https://x.com/someuser?lang=en'' = ''someuser''"
proof -
  have none: "\<forall>i. \<not> matches_at ''https://x.com/'' i"
  proof (intro allI notI)
    fix i assume m: "matches_at ''https://x.com/'' i"
    from matches_at_bound [OF m] have "i < 8" by simp
    then have "i \<in> {0, 1, 2, 3, 4, 5, 6, 7}" by auto
    with m show False
      by (auto simp: matches_at_def marker_at_def segment_at_def lower_char_def seg_char_def)
  qed
  have m8: "matches_at ''https://x.com/someuser?lang=en'' 8"
    by (simp add: matches_at_def marker_at_def segment_at_def lower_char_def seg_char_def)
  have before: "\<forall>j<8. \<not> matches_at ''https://x.com/someuser?lang=en'' j"
  proof (intro allI impI)
    fix j :: nat assume "j < 8"
    then have "j \<in> {0, 1, 2, 3, 4, 5, 6, 7}" by auto
    then show "\<not> matches_at ''https://x.com/someuser?lang=en'' j"
      by (auto simp: matches_at_def marker_at_def lower_char_def)
  qed
  have seg: "segment_at ''https://x.com/someuser?lang=en'' 8 = ''someuser''"
    by (simp add: segment_at_def seg_char_def)
  from extract_username_from_url_spec [of "''https://x.com/''" 0]
  have e1: "extract_username_from_url ''https://x.com/'' = ''''" using none by blast
  from extract_username_from_url_spec [of "''https://x.com/someuser?lang=en''" 8]
  have e2: "extract_username_from_url ''https://x.com/someuser?lang=en'' = ''someuser''"
    using m8 before seg by simp
  from none e1 m8 before e2 show ?thesis by (simp add: list_all_iff)
qed

text \<open>
  C10. The marker is looked for anywhere in the string, in any letter case, not at the
  host of the URL only: \<open>https://fakex.com/user\<close>, whose host is \<open>fakex.com\<close>, gives the
  user name \<open>user\<close>, and whatever stands before and after \<open>x.com/user\<close> in a string, the
  result is not the empty string.
\<close>

theorem extract_username_from_url_matches_anywhere:
  "extract_username_from_url ''https://fakex.com/user'' = ''user''
   \<and> extract_username_from_url ''https://FakeX.COM/user'' = ''user''
   \<and> extract_username_from_url (before @ ''x.com/user'' @ after) \<noteq> ''''"
proof (intro conjI)
  show "extract_username_from_url ''https://fakex.com/user'' = ''user''"
    by (simp add: extract_username_from_url_def match_here_def lower_char_def seg_char_def)
  show "extract_username_from_url ''https://FakeX.COM/user'' = ''user''"
    by (simp add: extract_username_from_url_def match_here_def lower_char_def seg_char_def)
  let ?url = "before @ ''x.com/user'' @ after"
  have "match_here (drop (length before) ?url) = Some (takeWhile seg_char (''user'' @ after))"
    by (simp add: match_here_def lower_char_def seg_char_def)
  then obtain seg where s: "search_username ?url = Some seg"
    using search_username_some by blast
  then have "seg \<noteq> []" by (rule search_username_nonempty)
  with s show "extract_username_from_url ?url \<noteq> ''''"
    by (simp add: extract_username_from_url_def)
qed

section \<open>Properties of the lead extraction\<close>

lemma organic_loop_collect:
  "organic_loop repr acc rs =
     (case collect_leads repr rs of Inl e \<Rightarrow> Inl e | Inr ls \<Rightarrow> Inr (acc @ ls))"
  by (induction rs arbitrary: acc) (auto split: sum.splits)

lemma collect_leads_append:
  "collect_leads repr (rs @ ss) =
     (case collect_leads repr rs of
        Inl e \<Rightarrow> Inl e
      | Inr ls \<Rightarrow> (case collect_leads repr ss of Inl e \<Rightarrow> Inl e | Inr ms \<Rightarrow> Inr (ls @ ms)))"
  by (induction rs) (auto split: sum.splits)

lemma items_loop_collect:
  "items_loop repr acc items =
     (case collect_leads repr (concat (map organic_of items)) of
        Inl e \<Rightarrow> Inl e
      | Inr ls \<Rightarrow> Inr (acc @ ls))"
proof (induction items arbitrary: acc)
  case Nil
  show ?case by simp
next
  case (Cons item items)
  show ?case
    by (simp add: Let_def Cons.IH organic_loop_collect collect_leads_append split: sum.splits)
qed

lemma collect_leads_all2:
  "collect_leads repr rs = Inr ls \<Longrightarrow> list_all2 (\<lambda>r l. lead_of_entry repr r = Inr l) rs ls"
  by (induction rs arbitrary: ls) (auto split: sum.splits)

lemma organic_of_container_entries: "organic_of item = container_entries item"
proof (cases item)
  case (PDict d)
  then show ?thesis
    by (cases "map_of d ''json''")
      (auto simp: organic_of_def json_obj_of_def list_under_def container_entries_def
        split: pyval.splits option.splits)
qed (simp_all add: organic_of_def json_obj_of_def container_entries_def)

lemma container_entries_no_list: "\<not> has_results_list item \<Longrightarrow> container_entries item = []"
  by (simp add: has_results_list_def container_entries_def)

lemma parse_apify_items_collect:
  "parse_apify_items repr items = collect_leads repr (concat (map container_entries items))"
proof -
  have "organic_of = container_entries"
    by (rule ext) (rule organic_of_container_entries)
  then show ?thesis
    by (simp add: parse_apify_items_def items_loop_collect split: sum.splits)
qed

text \<open>
  C7. \<open>parse_apify_items\<close> maps the entries of all containers, taken container by
  container in the given order, each entry to its own lead: the result is the list of these
  leads in that order, as long as the entries (equal ones included), or the error of the
  first entry that raises. A container whose payload has no list under \<open>organicResults\<close>
  and none under \<open>results\<close> has no entries, raises nothing, and can be left out of the
  input without changing the result. In particular the entries of a container wrapped
  under \<open>json\<close> are those of the wrapped payload: a list under \<open>organicResults\<close> there is
  read, and a list under \<open>results\<close> beside a \<open>json\<close> payload that has no list is not.
\<close>

theorem parse_apify_items_order:
  "parse_apify_items repr items = collect_leads repr (concat (map container_entries items))
   \<and> (\<not> has_results_list c \<longrightarrow>
        container_entries c = []
        \<and> parse_apify_items repr (xs @ c # ys) = parse_apify_items repr (xs @ ys))
   \<and> (parse_apify_items repr items = Inr leads \<longrightarrow>
        list_all2 (\<lambda>r l. lead_of_entry repr r = Inr l)
          (concat (map container_entries items)) leads)
   \<and> parse_apify_items repr [PDict [(''json'', PDict [(''organicResults'', PList rs)])]]
       = collect_leads repr rs
   \<and> parse_apify_items repr [PDict [(''organicResults'', PList rs), (''results'', PList ss)]]
       = collect_leads repr rs
   \<and> parse_apify_items repr [PDict [(''results'', PList rs)]] = collect_leads repr rs
   \<and> parse_apify_items repr
         [PDict [(''json'', PDict [(''searchQuery'', PStr q)]), (''results'', PList rs)]]
       = Inr []"
proof (intro conjI impI)
  show "parse_apify_items repr items = collect_leads repr (concat (map container_entries items))"
    by (rule parse_apify_items_collect)
  show "container_entries c = []" if "\<not> has_results_list c"
    using that by (rule container_entries_no_list)
  show "parse_apify_items repr (xs @ c # ys) = parse_apify_items repr (xs @ ys)"
    if "\<not> has_results_list c"
    using container_entries_no_list [OF that] by (simp add: parse_apify_items_collect)
  show "list_all2 (\<lambda>r l. lead_of_entry repr r = Inr l)
          (concat (map container_entries items)) leads"
    if "parse_apify_items repr items = Inr leads"
    using that by (simp add: parse_apify_items_collect collect_leads_all2)
  show "parse_apify_items repr [PDict [(''json'', PDict [(''organicResults'', PList rs)])]]
       = collect_leads repr rs"
    by (simp add: parse_apify_items_collect container_entries_def)
  show "parse_apify_items repr [PDict [(''organicResults'', PList rs), (''results'', PList ss)]]
       = collect_leads repr rs"
    by (simp add: parse_apify_items_collect container_entries_def)
  show "parse_apify_items repr [PDict [(''results'', PList rs)]] = collect_leads repr rs"
    by (simp add: parse_apify_items_collect container_entries_def)
  show "parse_apify_items repr
         [PDict [(''json'', PDict [(''searchQuery'', PStr q)]), (''results'', PList rs)]]
       = Inr []"
    by (simp add: parse_apify_items_collect container_entries_def)
qed

lemmas extraction_defs = parse_apify_items_def organic_of_def json_obj_of_def list_under_def
  lead_of_entry_def dict_get_def py_or_def extract_username_from_url_val_def
  parse_followers_val_def

theorem parse_apify_items_order_witness:
  "\<not> has_results_list
       (PDict [(''json'', PDict [(''searchQuery'', PStr ''q'')]),
               (''results'', PList [PDict [(''title'', PStr ''Cy'')]])])
   \<and> container_entries
       (PDict [(''json'', PDict [(''searchQuery'', PStr ''q'')]),
               (''results'', PList [PDict [(''title'', PStr ''Cy'')]])]) = []
   \<and> parse_apify_items (\<lambda>v. [])
        ([PDict [(''json'', PDict [(''organicResults'', PList [PDict [(''title'', PStr ''Ada'')]])])]]
         @ PDict [(''json'', PDict [(''searchQuery'', PStr ''q'')]),
                  (''results'', PList [PDict [(''title'', PStr ''Cy'')]])]
         # [PDict [(''results'', PList [PDict [(''title'', PStr ''Bob'')],
                                        PDict [(''title'', PStr ''Ada'')]])]])
      = parse_apify_items (\<lambda>v. [])
        ([PDict [(''json'', PDict [(''organicResults'', PList [PDict [(''title'', PStr ''Ada'')]])])]]
         @ [PDict [(''results'', PList [PDict [(''title'', PStr ''Bob'')],
                                        PDict [(''title'', PStr ''Ada'')]])]])
   \<and> parse_apify_items (\<lambda>v. [])
        [PDict [(''json'', PDict [(''organicResults'', PList [PDict [(''title'', PStr ''Ada'')]])])],
         PDict [(''json'', PDict [(''searchQuery'', PStr ''q'')]),
                (''results'', PList [PDict [(''title'', PStr ''Cy'')]])],
         PDict [(''results'', PList [PDict [(''title'', PStr ''Bob'')],
                                    PDict [(''title'', PStr ''Ada'')]])]]
      = Inr [[(''Name'', PStr ''Ada''), (''Username'', PStr []), (''Handle'', PStr []),
              (''Description'', PStr []), (''Followers'', PNone)],
             [(''Name'', PStr ''Bob''), (''Username'', PStr []), (''Handle'', PStr []),
              (''Description'', PStr []), (''Followers'', PNone)],
             [(''Name'', PStr ''Ada''), (''Username'', PStr []), (''Handle'', PStr []),
              (''Description'', PStr []), (''Followers'', PNone)]]
   \<and> concat (map container_entries
        [PDict [(''json'', PDict [(''organicResults'', PList [PDict [(''title'', PStr ''Ada'')]])])],
         PDict [(''json'', PDict [(''searchQuery'', PStr ''q'')]),
                (''results'', PList [PDict [(''title'', PStr ''Cy'')]])],
         PDict [(''results'', PList [PDict [(''title'', PStr ''Bob'')],
                                    PDict [(''title'', PStr ''Ada'')]])]])
      = [PDict [(''title'', PStr ''Ada'')], PDict [(''title'', PStr ''Bob'')],
         PDict [(''title'', PStr ''Ada'')]]
   \<and> list_all2 (\<lambda>r l. lead_of_entry (\<lambda>v. []) r = Inr l)
        [PDict [(''title'', PStr ''Ada'')], PDict [(''title'', PStr ''Bob'')],
         PDict [(''title'', PStr ''Ada'')]]
        [[(''Name'', PStr ''Ada''), (''Username'', PStr []), (''Handle'', PStr []),
          (''Description'', PStr []), (''Followers'', PNone)],
         [(''Name'', PStr ''Bob''), (''Username'', PStr []), (''Handle'', PStr []),
          (''Description'', PStr []), (''Followers'', PNone)],
         [(''Name'', PStr ''Ada''), (''Username'', PStr []), (''Handle'', PStr []),
          (''Description'', PStr []), (''Followers'', PNone)]]"
proof -
  let ?a = "PDict [(''json'', PDict [(''organicResults'', PList [PDict [(''title'', PStr ''Ada'')]])])]"
  let ?c = "PDict [(''json'', PDict [(''searchQuery'', PStr ''q'')]),
                   (''results'', PList [PDict [(''title'', PStr ''Cy'')]])]"
  let ?b = "PDict [(''results'', PList [PDict [(''title'', PStr ''Bob'')],
                                       PDict [(''title'', PStr ''Ada'')]])]"
  let ?entries = "[PDict [(''title'', PStr ''Ada'')], PDict [(''title'', PStr ''Bob'')],
                   PDict [(''title'', PStr ''Ada'')]]"
  let ?leads = "[[(''Name'', PStr ''Ada''), (''Username'', PStr []), (''Handle'', PStr []),
                  (''Description'', PStr []), (''Followers'', PNone)],
                 [(''Name'', PStr ''Bob''), (''Username'', PStr []), (''Handle'', PStr []),
                  (''Description'', PStr []), (''Followers'', PNone)],
                 [(''Name'', PStr ''Ada''), (''Username'', PStr []), (''Handle'', PStr []),
                  (''Description'', PStr []), (''Followers'', PNone)]]"
  have none: "parse_followers (Some []) = Inr None"
    by (simp add: parse_followers_def text_defs)
  have lacks: "\<not> has_results_list ?c"
    by (simp add: has_results_list_def)
  have res: "parse_apify_items (\<lambda>v. []) [?a, ?c, ?b] = Inr ?leads"
    by (simp add: extraction_defs none Let_def)
  have ents: "concat (map container_entries [?a, ?c, ?b]) = ?entries"
    by (simp add: container_entries_def)
  note t = parse_apify_items_order [of "\<lambda>v. []" "[?a, ?c, ?b]" ?c "[?a]" "[?b]" ?leads]
  from t lacks have empty: "container_entries ?c = []"
    by blast
  from t lacks have same:
    "parse_apify_items (\<lambda>v. []) ([?a] @ ?c # [?b]) = parse_apify_items (\<lambda>v. []) ([?a] @ [?b])"
    by blast
  from t res have "list_all2 (\<lambda>r l. lead_of_entry (\<lambda>v. []) r = Inr l)
      (concat (map container_entries [?a, ?c, ?b])) ?leads"
    by blast
  then have all2: "list_all2 (\<lambda>r l. lead_of_entry (\<lambda>v. []) r = Inr l) ?entries ?leads"
    by (simp only: ents)
  from lacks empty same res ents all2 show ?thesis by blast
qed

section \<open>Properties of the tab provisioning\<close>

lemma length_headers: "length headers = 7"
  by (simp add: headers_def)

lemma headers_nonempty: "headers \<noteq> []"
  by (simp add: headers_def)

lemma worksheet_named_title: "worksheet_named sheet name = Some w \<Longrightarrow> title w = name"
  by (auto simp: worksheet_named_def find_Some_iff)

lemma worksheet_named_store:
  "worksheet_named (store_worksheet ws sheet) (title ws) = Some ws"
  by (induction sheet) (simp_all add: worksheet_named_def)

text \<open>On a tab whose first row starts with the header, provisioning reads the row and
  writes nothing.\<close>

lemma ensure_sheet_tab_header_present:
  assumes "worksheet_named sheet tab_name = Some w" and "take 7 (first_row w) = headers"
  shows "ensure_sheet_tab sheet tab_name =
           (store_worksheet (w\<lparr>calls := calls w @ [Row_values 1]\<rparr>) sheet,
            w\<lparr>calls := calls w @ [Row_values 1]\<rparr>)"
proof -
  from assms(2) have "first_row w \<noteq> []" using headers_nonempty by auto
  with assms show ?thesis
    by (simp add: ensure_sheet_tab_def row_values_def Let_def length_headers)
qed

text \<open>After provisioning, the tab is in the sheet under its name and its first row starts
  with the header.\<close>

lemma ensure_sheet_tab_result:
  assumes "ensure_sheet_tab sheet tab_name = (sheet1, ws1)"
  shows "title ws1 = tab_name" and "take 7 (first_row ws1) = headers"
    and "worksheet_named sheet1 tab_name = Some ws1"
proof -
  define ws where "ws = (case worksheet_named sheet tab_name of
      Some w \<Rightarrow> w | None \<Rightarrow> add_worksheet tab_name 1000 20)"
  have t: "title ws = tab_name"
    by (auto simp: ws_def add_worksheet_def worksheet_named_title split: option.splits)
  define ws0 where "ws0 = ws\<lparr>calls := calls ws @ [Row_values 1]\<rparr>"
  have r: "ws1 = (if first_row ws = [] \<or> take (length headers) (first_row ws) \<noteq> headers
              then update_first_row headers ws0 else ws0)"
    and s: "sheet1 = store_worksheet ws1 sheet"
    using assms
    by (auto simp: ensure_sheet_tab_def row_values_def Let_def ws_def ws0_def)
  show t1: "title ws1 = tab_name"
    using t by (simp add: r ws0_def update_first_row_def)
  show "take 7 (first_row ws1) = headers"
    by (auto simp: r ws0_def update_first_row_def first_row_def length_headers)
  show "worksheet_named sheet1 tab_name = Some ws1"
    using worksheet_named_store [of ws1 sheet] by (simp add: s t1)
qed

text \<open>
  C5. When the first seven cells of the tab's first row are the header, \<open>ensure_sheet_tab\<close>
  makes no \<open>update\<close> call: the worksheet it returns is the one it found, with the read of
  row 1 added to its calls. So a second provisioning right after a first one leaves all
  cells, the header row among them, as the first one left them.
\<close>

theorem ensure_sheet_tab_idempotent:
  "(worksheet_named sheet tab_name = Some w \<and> take 7 (first_row w) = headers \<longrightarrow>
      snd (ensure_sheet_tab sheet tab_name) = w\<lparr>calls := calls w @ [Row_values 1]\<rparr>)
   \<and> (let (sheet1, ws1) = ensure_sheet_tab sheet tab_name;
           (sheet2, ws2) = ensure_sheet_tab sheet1 tab_name
       in take 7 (first_row ws1) = headers
          \<and> cells ws2 = cells ws1
          \<and> calls ws2 = calls ws1 @ [Row_values 1]
          \<and> worksheet_named sheet2 tab_name = Some ws2)"
proof (intro conjI impI)
  assume "worksheet_named sheet tab_name = Some w \<and> take 7 (first_row w) = headers"
  then show "snd (ensure_sheet_tab sheet tab_name) = w\<lparr>calls := calls w @ [Row_values 1]\<rparr>"
    by (simp add: ensure_sheet_tab_header_present)
next
  obtain sheet1 ws1 where e1: "ensure_sheet_tab sheet tab_name = (sheet1, ws1)"
    by (cases "ensure_sheet_tab sheet tab_name")
  note r1 = ensure_sheet_tab_result [OF e1]
  have e2: "ensure_sheet_tab sheet1 tab_name =
      (store_worksheet (ws1\<lparr>calls := calls ws1 @ [Row_values 1]\<rparr>) sheet1,
       ws1\<lparr>calls := calls ws1 @ [Row_values 1]\<rparr>)"
    using r1(3) r1(2) by (rule ensure_sheet_tab_header_present)
  note r2 = ensure_sheet_tab_result [OF e2]
  show "let (sheet1, ws1) = ensure_sheet_tab sheet tab_name;
            (sheet2, ws2) = ensure_sheet_tab sheet1 tab_name
        in take 7 (first_row ws1) = headers
           \<and> cells ws2 = cells ws1
           \<and> calls ws2 = calls ws1 @ [Row_values 1]
           \<and> worksheet_named sheet2 tab_name = Some ws2"
    using r1(2) r2(3) by (simp add: e1 e2)
qed

theorem ensure_sheet_tab_idempotent_witness:
  "worksheet_named
     [\<lparr>title = ''Leads'', row_count = 1000, col_count = 20,
       cells = [headers @ [PStr ''Notes''], [PStr ''2025-03-09 07:05:00 UTC'', PStr ''nft'']],
       calls = []\<rparr>] ''Leads''
     = Some \<lparr>title = ''Leads'', row_count = 1000, col_count = 20,
        cells = [headers @ [PStr ''Notes''], [PStr ''2025-03-09 07:05:00 UTC'', PStr ''nft'']],
        calls = []\<rparr>
   \<and> take 7 (first_row \<lparr>title = ''Leads'', row_count = 1000, col_count = 20,
        cells = [headers @ [PStr ''Notes''], [PStr ''2025-03-09 07:05:00 UTC'', PStr ''nft'']],
        calls = []\<rparr>) = headers
   \<and> snd (ensure_sheet_tab
        [\<lparr>title = ''Leads'', row_count = 1000, col_count = 20,
          cells = [headers @ [PStr ''Notes''], [PStr ''2025-03-09 07:05:00 UTC'', PStr ''nft'']],
          calls = []\<rparr>] ''Leads'')
     = \<lparr>title = ''Leads'', row_count = 1000, col_count = 20,
        cells = [headers @ [PStr ''Notes''], [PStr ''2025-03-09 07:05:00 UTC'', PStr ''nft'']],
        calls = [Row_values 1]\<rparr>"
proof -
  let ?w = "\<lparr>title = ''Leads'', row_count = 1000, col_count = 20,
       cells = [headers @ [PStr ''Notes''], [PStr ''2025-03-09 07:05:00 UTC'', PStr ''nft'']],
       calls = []\<rparr>"
  have found: "worksheet_named [?w] ''Leads'' = Some ?w"
    by (simp add: worksheet_named_def)
  have hdr: "take 7 (first_row ?w) = headers"
    by (simp add: first_row_def length_headers)
  from ensure_sheet_tab_idempotent [of "[?w]" "''Leads''" ?w] found hdr
  have "snd (ensure_sheet_tab [?w] ''Leads'') = ?w\<lparr>calls := calls ?w @ [Row_values 1]\<rparr>"
    by blast
  then have "snd (ensure_sheet_tab [?w] ''Leads'') =
      \<lparr>title = ''Leads'', row_count = 1000, col_count = 20,
       cells = [headers @ [PStr ''Notes''], [PStr ''2025-03-09 07:05:00 UTC'', PStr ''nft'']],
       calls = [Row_values 1]\<rparr>"
    by simp
  with found hdr show ?thesis by blast
qed

section \<open>Properties of the append\<close>

text \<open>
  C6. With an empty list of leads, \<open>append_leads_to_sheet\<close> returns 0 and the worksheet is
  as it was: no rows added and no call made on it.
\<close>

theorem append_leads_to_sheet_empty:
  "append_leads_to_sheet repr utcnow ws topic [] = (0, ws)"
  by (simp add: append_leads_to_sheet_def)

subsection \<open>Digits of the timestamp\<close>

lemma is_digit_digit_char: "d < 10 \<Longrightarrow> is_digit (digit_char d)"
proof -
  assume "d < 10"
  then have "d \<in> {0, 1, 2, 3, 4, 5, 6, 7, 8, 9}" by auto
  then show ?thesis by (auto simp: digit_char_def is_digit_def)
qed

lemma str_nat_1: "n < 10 \<Longrightarrow> str_nat n = [digit_char n]"
  by (subst str_nat.simps) simp

lemma str_nat_step: "10 \<le> n \<Longrightarrow> str_nat n = str_nat (n div 10) @ [digit_char (n mod 10)]"
  by (subst str_nat.simps) simp

lemma str_nat_2:
  "10 \<le> n \<Longrightarrow> n < 100 \<Longrightarrow> str_nat n = [digit_char (n div 10), digit_char (n mod 10)]"
proof -
  assume a: "10 \<le> n" "n < 100"
  then have "n div 10 < 10" by simp
  then have "str_nat (n div 10) = [digit_char (n div 10)]" by (rule str_nat_1)
  with str_nat_step [OF a(1)] show ?thesis by simp
qed

lemma str_nat_3:
  "100 \<le> n \<Longrightarrow> n < 1000 \<Longrightarrow>
   str_nat n = [digit_char (n div 100), digit_char (n div 10 mod 10), digit_char (n mod 10)]"
proof -
  assume a: "100 \<le> n" "n < 1000"
  then have "10 \<le> n div 10" "n div 10 < 100" by simp_all
  then have s: "str_nat (n div 10) = [digit_char (n div 10 div 10), digit_char (n div 10 mod 10)]"
    by (rule str_nat_2)
  have c: "n div 10 div 10 = n div 100" by (simp add: div_mult2_eq [symmetric])
  from a have "10 \<le> n" by simp
  from str_nat_step [OF this] show ?thesis by (simp only: s c append.simps)
qed

lemma str_nat_4:
  "1000 \<le> n \<Longrightarrow> n < 10000 \<Longrightarrow>
   str_nat n = [digit_char (n div 1000), digit_char (n div 100 mod 10),
                digit_char (n div 10 mod 10), digit_char (n mod 10)]"
proof -
  assume a: "1000 \<le> n" "n < 10000"
  then have "100 \<le> n div 10" "n div 10 < 1000" by simp_all
  then have s: "str_nat (n div 10) = [digit_char (n div 10 div 100),
      digit_char (n div 10 div 10 mod 10), digit_char (n div 10 mod 10)]"
    by (rule str_nat_3)
  have c: "n div 10 div 100 = n div 1000" "n div 10 div 10 = n div 100"
    by (simp_all add: div_mult2_eq [symmetric])
  from a have "10 \<le> n" by simp
  from str_nat_step [OF this] show ?thesis by (simp only: s c append.simps)
qed

lemma zero_pad_2:
  "n < 100 \<Longrightarrow> zero_pad 2 n = [digit_char (n div 10), digit_char (n mod 10)]"
proof (cases "n < 10")
  case True
  then show ?thesis by (simp add: zero_pad_def str_nat_1 digit_char_def)
next
  case False
  assume "n < 100"
  with False show ?thesis by (simp add: zero_pad_def str_nat_2)
qed

lemma replicate_small: "replicate 2 x = [x, x]" "replicate 3 x = [x, x, x]"
  by (simp_all add: numeral_2_eq_2 numeral_3_eq_3)

lemma digit_char_0: "digit_char 0 = CHR ''0''"
  by (simp add: digit_char_def)

lemma zero_pad_4:
  "n < 10000 \<Longrightarrow>
   zero_pad 4 n = [digit_char (n div 1000), digit_char (n div 100 mod 10),
                   digit_char (n div 10 mod 10), digit_char (n mod 10)]"
proof -
  assume b: "n < 10000"
  consider "n < 10" | "10 \<le> n" "n < 100" | "100 \<le> n" "n < 1000" | "1000 \<le> n"
    by linarith
  then show ?thesis
  proof cases
    case 1
    then show ?thesis
      by (simp add: zero_pad_def str_nat_1 digit_char_0 replicate_small)
  next
    case 2
    then have "n div 100 = 0" "n div 1000 = 0" "n div 10 < 10" by simp_all
    with 2 show ?thesis
      by (simp add: zero_pad_def str_nat_2 digit_char_0 replicate_small)
  next
    case 3
    then have "n div 1000 = 0" "n div 100 < 10" by simp_all
    with 3 show ?thesis
      by (simp add: zero_pad_def str_nat_3 digit_char_0)
  next
    case 4
    with b show ?thesis by (simp add: zero_pad_def str_nat_4)
  qed
qed

lemma timestamp_shape_isoformat:
  "valid_datetime dt \<Longrightarrow> timestamp_shape (isoformat_seconds dt @ '' UTC'')"
proof -
  assume v: "valid_datetime dt"
  have d2: "is_digit (digit_char (n div 10))"
    if "n < 100" for n using that by (simp_all add: is_digit_digit_char)
  have d4: "is_digit (digit_char (n div 1000))" "is_digit (digit_char (n div 100 mod 10))"
    "is_digit (digit_char (n div 10 mod 10))"
    if "n < 10000" for n using that by (simp_all add: is_digit_digit_char)
  have d1: "is_digit (digit_char (n mod 10))" for n by (simp add: is_digit_digit_char)
  from v have "year dt < 10000" "month dt < 100" "day dt < 100" "hour dt < 100"
    "minute dt < 100" "second dt < 100"
    by (simp_all add: valid_datetime_def)
  then show ?thesis
    by (simp add: timestamp_shape_def isoformat_seconds_def zero_pad_2 zero_pad_4
        shape_char_def d1 d2 d4)
qed

subsection \<open>Reading the timestamp back\<close>

lemma of_char_digit_char: "d < 10 \<Longrightarrow> (of_char (digit_char d) :: nat) - 48 = d"
proof -
  assume "d < 10"
  then have "d \<in> {0, 1, 2, 3, 4, 5, 6, 7, 8, 9}" by auto
  then show ?thesis by (auto simp: digit_char_def)
qed

lemma read_digits_2: "n < 100 \<Longrightarrow> read_digits (zero_pad 2 n) = n"
proof -
  assume b: "n < 100"
  then have "n div 10 < 10" by simp
  then show ?thesis using b
    by (simp add: zero_pad_2 read_digits_def of_char_digit_char)
qed

lemma read_digits_4: "n < 10000 \<Longrightarrow> read_digits (zero_pad 4 n) = n"
proof -
  assume b: "n < 10000"
  then have d: "n div 1000 < 10" by simp
  have e1: "n div 10 * 10 + n mod 10 = n" by simp
  have "n div 10 div 10 * 10 + n div 10 mod 10 = n div 10" by simp
  then have e2: "n div 100 * 10 + n div 10 mod 10 = n div 10"
    by (simp add: div_mult2_eq [symmetric])
  have "n div 100 div 10 * 10 + n div 100 mod 10 = n div 100" by simp
  then have e3: "n div 1000 * 10 + n div 100 mod 10 = n div 100"
    by (simp add: div_mult2_eq [symmetric])
  have "((n div 1000 * 10 + n div 100 mod 10) * 10 + n div 10 mod 10) * 10 + n mod 10 = n"
    by (simp only: e3 e2 e1)
  then show ?thesis using b d
    by (simp add: zero_pad_4 read_digits_def of_char_digit_char mult.commute)
qed

lemma length_zero_pad_2: "n < 100 \<Longrightarrow> length (zero_pad 2 n) = 2"
  by (simp add: zero_pad_2)

lemma length_zero_pad_4: "n < 10000 \<Longrightarrow> length (zero_pad 4 n) = 4"
  by (simp add: zero_pad_4)

lemma stamp_fields_isoformat:
  assumes "valid_datetime dt"
  shows "stamp_field (isoformat_seconds dt @ '' UTC'') 0 4 = year dt"
    and "stamp_field (isoformat_seconds dt @ '' UTC'') 5 2 = month dt"
    and "stamp_field (isoformat_seconds dt @ '' UTC'') 8 2 = day dt"
    and "stamp_field (isoformat_seconds dt @ '' UTC'') 11 2 = hour dt"
    and "stamp_field (isoformat_seconds dt @ '' UTC'') 14 2 = minute dt"
    and "stamp_field (isoformat_seconds dt @ '' UTC'') 17 2 = second dt"
proof -
  from assms have b: "year dt < 10000" "month dt < 100" "day dt < 100" "hour dt < 100"
    "minute dt < 100" "second dt < 100"
    by (simp_all add: valid_datetime_def)
  note l = length_zero_pad_4 [OF b(1)] length_zero_pad_2 [OF b(2)] length_zero_pad_2 [OF b(3)]
    length_zero_pad_2 [OF b(4)] length_zero_pad_2 [OF b(5)] length_zero_pad_2 [OF b(6)]
  note r = read_digits_4 [OF b(1)] read_digits_2 [OF b(2)] read_digits_2 [OF b(3)]
    read_digits_2 [OF b(4)] read_digits_2 [OF b(5)] read_digits_2 [OF b(6)]
  show "stamp_field (isoformat_seconds dt @ '' UTC'') 0 4 = year dt"
    by (simp add: stamp_field_def isoformat_seconds_def l r)
  show "stamp_field (isoformat_seconds dt @ '' UTC'') 5 2 = month dt"
    by (simp add: stamp_field_def isoformat_seconds_def l r)
  show "stamp_field (isoformat_seconds dt @ '' UTC'') 8 2 = day dt"
    by (simp add: stamp_field_def isoformat_seconds_def l r)
  show "stamp_field (isoformat_seconds dt @ '' UTC'') 11 2 = hour dt"
    by (simp add: stamp_field_def isoformat_seconds_def l r)
  show "stamp_field (isoformat_seconds dt @ '' UTC'') 14 2 = minute dt"
    by (simp add: stamp_field_def isoformat_seconds_def l r)
  show "stamp_field (isoformat_seconds dt @ '' UTC'') 17 2 = second dt"
    by (simp add: stamp_field_def isoformat_seconds_def l r)
qed

subsection \<open>The rows of a batch\<close>

lemma rows_loop_map:
  "rows_loop repr now topic rows leads = rows @ map (lead_row repr now topic) leads"
  by (induction leads arbitrary: rows) simp_all

text \<open>
  C4. For a list of leads that is not empty, \<open>append_leads_to_sheet\<close> returns the length of
  the list and appends as many rows, below the rows that were there, in one
  \<open>append_rows\<close> call. Every new row starts with the same timestamp, followed by the
  topic. The timestamp is the clock reading taken once, written as
  \<open>YYYY-MM-DD HH:MM:SS UTC\<close>: it has that shape, and its digits read back as the year,
  month, day, hour, minute and second of the clock.
\<close>

theorem append_leads_to_sheet_rows:
  "leads \<noteq> [] \<Longrightarrow> valid_datetime utcnow \<Longrightarrow>
   (let now = isoformat_seconds utcnow @ '' UTC'';
        (n, ws') = append_leads_to_sheet repr utcnow ws topic leads;
        rows = drop (length (cells ws)) (cells ws')
    in n = length leads
       \<and> timestamp_shape now
       \<and> stamp_field now 0 4 = year utcnow
       \<and> stamp_field now 5 2 = month utcnow
       \<and> stamp_field now 8 2 = day utcnow
       \<and> stamp_field now 11 2 = hour utcnow
       \<and> stamp_field now 14 2 = minute utcnow
       \<and> stamp_field now 17 2 = second utcnow
       \<and> take (length (cells ws)) (cells ws') = cells ws
       \<and> length rows = length leads
       \<and> list_all (\<lambda>row. row ! 0 = PStr now \<and> row ! 1 = PStr topic) rows
       \<and> calls ws' = calls ws @ [Append_rows rows ''USER_ENTERED''])"
  by (simp add: append_leads_to_sheet_def Let_def rows_loop_map append_rows_def
      timestamp_shape_isoformat stamp_fields_isoformat list_all_iff lead_row_def)

lemma isoformat_example:
  "isoformat_seconds \<lparr>year = 1999, month = 12, day = 31, hour = 23, minute = 59, second = 58,
      microsecond = 999999\<rparr> @ '' UTC'' = ''1999-12-31 23:59:58 UTC''"
  by (simp add: isoformat_seconds_def zero_pad_2 zero_pad_4 digit_char_def)

theorem append_leads_to_sheet_rows_witness:
  "[[(''Name'', PStr ''Ada'')], [(''Name'', PStr ''Bob'')]] \<noteq> []
   \<and> valid_datetime \<lparr>year = 1999, month = 12, day = 31, hour = 23, minute = 59, second = 58,
        microsecond = 999999\<rparr>
   \<and> fst (append_leads_to_sheet (\<lambda>v. [])
        \<lparr>year = 1999, month = 12, day = 31, hour = 23, minute = 59, second = 58,
         microsecond = 999999\<rparr>
        (add_worksheet ''Leads'' 1000 20) ''nft''
        [[(''Name'', PStr ''Ada'')], [(''Name'', PStr ''Bob'')]]) = 2
   \<and> timestamp_shape ''1999-12-31 23:59:58 UTC''
   \<and> stamp_field ''1999-12-31 23:59:58 UTC'' 0 4 = 1999
   \<and> stamp_field ''1999-12-31 23:59:58 UTC'' 5 2 = 12
   \<and> stamp_field ''1999-12-31 23:59:58 UTC'' 8 2 = 31
   \<and> stamp_field ''1999-12-31 23:59:58 UTC'' 11 2 = 23
   \<and> stamp_field ''1999-12-31 23:59:58 UTC'' 14 2 = 59
   \<and> stamp_field ''1999-12-31 23:59:58 UTC'' 17 2 = 58
   \<and> list_all (\<lambda>row. row ! 0 = PStr ''1999-12-31 23:59:58 UTC'' \<and> row ! 1 = PStr ''nft'')
        (cells (snd (append_leads_to_sheet (\<lambda>v. [])
           \<lparr>year = 1999, month = 12, day = 31, hour = 23, minute = 59, second = 58,
            microsecond = 999999\<rparr>
           (add_worksheet ''Leads'' 1000 20) ''nft''
           [[(''Name'', PStr ''Ada'')], [(''Name'', PStr ''Bob'')]])))
   \<and> length (cells (snd (append_leads_to_sheet (\<lambda>v. [])
           \<lparr>year = 1999, month = 12, day = 31, hour = 23, minute = 59, second = 58,
            microsecond = 999999\<rparr>
           (add_worksheet ''Leads'' 1000 20) ''nft''
           [[(''Name'', PStr ''Ada'')], [(''Name'', PStr ''Bob'')]]))) = 2"
proof -
  let ?dt = "\<lparr>year = 1999, month = 12, day = 31, hour = 23, minute = 59, second = 58,
      microsecond = 999999\<rparr>"
  let ?leads = "[[(''Name'', PStr ''Ada'')], [(''Name'', PStr ''Bob'')]]"
  have ne: "?leads \<noteq> []" by simp
  have v: "valid_datetime ?dt" by (simp add: valid_datetime_def)
  have c: "cells (add_worksheet ''Leads'' 1000 20) = []" by (simp add: add_worksheet_def)
  from append_leads_to_sheet_rows [OF ne v, of "\<lambda>v. []" "add_worksheet ''Leads'' 1000 20" "''nft''"]
  show ?thesis using v by (simp add: Let_def split_beta c isoformat_example)
qed

subsection \<open>The Followers cell\<close>

lemma followers_cell_positive:
  "map_of lead ''Followers'' = Some (PInt n) \<Longrightarrow> n \<noteq> 0 \<Longrightarrow>
   lead_row repr now topic lead ! 6 = PStr (str_int n)"
  by (simp add: lead_row_def dict_get_default_def py_or_def)

lemma followers_cell_none:
  "map_of lead ''Followers'' = Some PNone \<Longrightarrow> lead_row repr now topic lead ! 6 = PStr []"
  by (simp add: lead_row_def dict_get_default_def py_or_def)

text \<open>
  C2. A follower count of zero is not written as \<open>0\<close>: \<open>str(lead.get("Followers", "") or "")\<close>
  takes the empty string for every false value, and zero is one. The entry with the
  follower text \<open>0\<close> gives a lead whose count is the integer 0, and the row of that lead
  has the empty string in its Followers cell, as the row of a lead without a count has.
  Counts other than zero are written in decimal (\<open>followers_cell_positive\<close>).
\<close>

theorem followers_zero_cell:
  "lead_of_entry repr (PDict [(''title'', PStr ''Zed''), (''followers'', PStr ''0'')])
     = Inr [(''Name'', PStr ''Zed''), (''Username'', PStr []), (''Handle'', PStr []),
            (''Description'', PStr []), (''Followers'', PInt 0)]
   \<and> lead_row repr now topic
         [(''Name'', PStr ''Zed''), (''Username'', PStr []), (''Handle'', PStr []),
          (''Description'', PStr []), (''Followers'', PInt 0)]
       = [PStr now, PStr topic, PStr ''Zed'', PStr [], PStr [], PStr [], PStr []]
   \<and> str_int 0 = ''0''"
  by (simp add: lead_of_entry_def dict_get_def py_or_def extract_username_from_url_val_def
      parse_followers_val_def parse_followers_0 lead_row_def dict_get_default_def
      str_int_def str_nat_1 digit_char_def Let_def)

end
